theory Spec2Isabelle
  imports Main
begin

section \<open>Data model\<close>

text \<open>
  The parser works against python-chess objects. A square is an integer (0 = a1, 63 = h8,
  index = 8 * rank + file), a piece type is a number (1 pawn, 2 knight, 3 bishop, 4 rook,
  5 queen, 6 king) and a colour is a boolean (\<open>True\<close> is White). The board is the
  legal-move oracle: the model keeps exactly the queries the source makes on it.
  Strings are lists of 8-bit characters; the notation's alphabet is ASCII.
\<close>

record move =
  from_square :: int
  to_square :: int
  promotion :: "nat option"

record piece =
  piece_type :: nat
  color :: bool

record board =
  legal_moves :: "move list"
  piece_at :: "int \<Rightarrow> piece option"
  turn :: bool
  has_kingside_castling_rights :: "bool \<Rightarrow> bool"
  has_queenside_castling_rights :: "bool \<Rightarrow> bool"
  is_castling :: "move \<Rightarrow> bool"
  is_kingside_castling :: "move \<Rightarrow> bool"

record parser =
  board :: board
  is_white_turn :: bool

text \<open>\<open>__init__\<close>: the side to move is read once, when the parser is built.\<close>

definition DescriptiveNotationParser :: "board \<Rightarrow> parser" where
  "DescriptiveNotationParser b = \<lparr>board = b, is_white_turn = turn b\<rparr>"

datatype error = IndexError | ValueError | KeyError

section \<open>String primitives\<close>

definition ord :: "char \<Rightarrow> int" where
  "ord c = int (of_char c)"

text \<open>\<open>str.isspace\<close> on the 8-bit range; it is also what \<open>\s\<close> matches.\<close>

definition is_space :: "char \<Rightarrow> bool" where
  "is_space c = (ord c \<in> set [9, 10, 11, 12, 13, 28, 29, 30, 31, 32, 133, 160])"

definition is_digit :: "char \<Rightarrow> bool" where
  "is_digit c = (48 \<le> ord c \<and> ord c \<le> 57)"

definition is_AZ :: "char \<Rightarrow> bool" where
  "is_AZ c = (65 \<le> ord c \<and> ord c \<le> 90)"


definition to_upper :: "char \<Rightarrow> char" where
  "to_upper c = (if 97 \<le> ord c \<and> ord c \<le> 122 then char_of (ord c - 32) else c)"

definition upper :: "string \<Rightarrow> string" where
  "upper s = map to_upper s"

definition strip :: "string \<Rightarrow> string" where
  "strip s = rev (dropWhile is_space (rev (dropWhile is_space s)))"

definition startswith :: "string \<Rightarrow> string \<Rightarrow> bool" where
  "startswith s pre = (take (length pre) s = pre)"

text \<open>\<open>s.replace(c, '')\<close> for a one-character \<open>c\<close>.\<close>

definition remove_char :: "char \<Rightarrow> string \<Rightarrow> string" where
  "remove_char c s = filter (\<lambda>d. d \<noteq> c) s"

text \<open>
  \<open>int(s)\<close>: the source only applies it to a group matched by \<open>\d+\<close>. CPython
  (3.11 and later, default settings) refuses to convert a string of more than 4300 digits,
  leading zeros included, and raises \<open>ValueError\<close>. Any argument that is not a run
  of digits is reported as \<open>ValueError\<close> too.
\<close>

definition int_max_str_digits :: nat where
  "int_max_str_digits = 4300"

definition python_int :: "string \<Rightarrow> error + int" where
  "python_int s =
     (if s \<noteq> [] \<and> list_all is_digit s \<and> length s \<le> int_max_str_digits
      then Inr (foldl (\<lambda>a c. 10 * a + (ord c - 48)) 0 s)
      else Inl ValueError)"

text \<open>\<open>re.search(r'(\d+)', s)\<close>: the first maximal run of digits, empty when there is none.\<close>

definition first_digit_run :: "string \<Rightarrow> string" where
  "first_digit_run s = takeWhile is_digit (dropWhile (\<lambda>c. \<not> is_digit c) s)"


section \<open>Input normalisation\<close>

text \<open>
  \<open>re.sub(r'\s*(ch|check|\+|mate|#|e\.?\s*p\.?).*$', '', notation, flags=re.IGNORECASE)\<close>.
  \<open>keyword_rest\<close> matches the group at the head of the string and returns what follows it.
  The alternative \<open>check\<close> only matches where \<open>ch\<close> already does.
\<close>

fun keyword_rest :: "string \<Rightarrow> string option" where
  "keyword_rest [] = None"
| "keyword_rest (c # cs) =
     (if to_upper c = CHR ''C'' then
        (case cs of h # r \<Rightarrow> if to_upper h = CHR ''H'' then Some r else None | [] \<Rightarrow> None)
      else if c = CHR ''+'' then Some cs
      else if to_upper c = CHR ''M'' then
        (if map to_upper (take 3 cs) = ''ATE'' then Some (drop 3 cs) else None)
      else if c = CHR ''#'' then Some cs
      else if to_upper c = CHR ''E'' then
        (case dropWhile is_space (if take 1 cs = ''.'' then drop 1 cs else cs) of
           q # r \<Rightarrow> if to_upper q = CHR ''P''
                    then Some (if take 1 r = ''.'' then drop 1 r else r) else None
         | [] \<Rightarrow> None)
      else None)"

text \<open>
  A match at the head of \<open>s\<close>: leading white space, the group, then \<open>.*$\<close>, which needs
  the rest of the line to be the rest of the string (up to one final newline, which
  is left in place). The result is the text the substitution leaves after the match.
\<close>

definition annotation_match :: "string \<Rightarrow> string option" where
  "annotation_match s =
     (case keyword_rest (dropWhile is_space s) of
        None \<Rightarrow> None
      | Some r \<Rightarrow>
          (let rest = dropWhile (\<lambda>c. c \<noteq> CHR 0x0A) r
           in if rest = [] \<or> rest = [CHR 0x0A] then Some rest else None))"

fun strip_annotations :: "string \<Rightarrow> string" where
  "strip_annotations [] = []"
| "strip_annotations (c # cs) =
     (case annotation_match (c # cs) of
        Some rest \<Rightarrow> rest
      | None \<Rightarrow> c # strip_annotations cs)"

section \<open>File and rank resolution\<close>

definition FILE_MAP :: "string \<rightharpoonup> char" where
  "FILE_MAP = map_of
     [(''QR'', CHR ''a''), (''QN'', CHR ''b''), (''QB'', CHR ''c''), (''Q'', CHR ''d''),
      (''K'', CHR ''e''), (''KB'', CHR ''f''), (''KN'', CHR ''g''), (''KR'', CHR ''h'')]"

definition AMBIGUOUS_FILES :: "string \<rightharpoonup> char list" where
  "AMBIGUOUS_FILES = map_of
     [(''R'', [CHR ''a'', CHR ''h'']), (''N'', [CHR ''b'', CHR ''g'']),
      (''B'', [CHR ''c'', CHR ''f''])]"

definition QUALIFIED_PIECES :: "string \<rightharpoonup> string \<times> string" where
  "QUALIFIED_PIECES = map_of
     [(''QR'', (''R'', ''Q'')), (''KR'', (''R'', ''K'')), (''QN'', (''N'', ''Q'')),
      (''KN'', (''N'', ''K'')), (''QB'', (''B'', ''Q'')), (''KB'', (''B'', ''K''))]"

definition piece_map :: "string \<rightharpoonup> nat" where
  "piece_map = map_of
     [(''P'', 1), (''R'', 4), (''N'', 2), (''B'', 3), (''Q'', 5), (''K'', 6)]"

definition promo_map :: "string \<rightharpoonup> nat" where
  "promo_map = map_of [(''Q'', 5), (''R'', 4), (''B'', 3), (''N'', 2)]"

definition descriptive_file_to_standard :: "parser \<Rightarrow> string \<Rightarrow> char option" where
  "descriptive_file_to_standard p file_desc = FILE_MAP file_desc"

definition descriptive_rank_to_standard :: "parser \<Rightarrow> int \<Rightarrow> int option" where
  "descriptive_rank_to_standard p rank_desc =
     (if is_white_turn p then Some (rank_desc - 1) else Some (8 - rank_desc))"

definition file_rank_to_square :: "char \<Rightarrow> int \<Rightarrow> int" where
  "file_rank_to_square file rank = rank * 8 + (ord file - ord (CHR ''a''))"

section \<open>Candidate filters and tie-breaks\<close>

text \<open>
  \<open>piece and piece.piece_type == piece_type and piece.color == self.board.turn\<close>
  for the piece on the move's origin square.
\<close>

definition moves_own_piece :: "board \<Rightarrow> nat \<Rightarrow> move \<Rightarrow> bool" where
  "moves_own_piece b pt m =
     (case piece_at b (from_square m) of
        None \<Rightarrow> False
      | Some pc \<Rightarrow> piece_type pc = pt \<and> color pc = turn b)"

definition lands_on_piece :: "board \<Rightarrow> move \<Rightarrow> bool" where
  "lands_on_piece b m = (piece_at b (to_square m) \<noteq> None)"

text \<open>The loop collecting the legal moves of a piece type to one target square.\<close>

definition candidates_to :: "board \<Rightarrow> nat \<Rightarrow> int \<Rightarrow> move list" where
  "candidates_to b pt target_square =
     filter (\<lambda>m. to_square m = target_square \<and> moves_own_piece b pt m) (legal_moves b)"

text \<open>
  The tie-break of the plain-piece and pawn parsers: one candidate is returned as it is;
  among several, a capture marker prefers the first candidate that lands on a piece;
  otherwise the first candidate wins.
\<close>

definition choose_candidate :: "board \<Rightarrow> bool \<Rightarrow> move list \<Rightarrow> move option" where
  "choose_candidate b is_capture cands =
     (if length cands = 1 then Some (cands ! 0)
      else if length cands > 1 then
        (if is_capture then
           (case find (lands_on_piece b) cands of
              Some m \<Rightarrow> Some m
            | None \<Rightarrow> Some (cands ! 0))
         else Some (cands ! 0))
      else None)"

definition on_qualifier_side :: "string \<Rightarrow> move \<Rightarrow> bool" where
  "on_qualifier_side side_qualifier m =
     (let from_file = from_square m mod 8
      in (side_qualifier = ''Q'' \<and> from_file \<le> 3) \<or> (side_qualifier = ''K'' \<and> from_file \<ge> 4))"

text \<open>The tie-break of the qualified-piece parsers: it never looks at the capture marker.\<close>

definition choose_qualified :: "string \<Rightarrow> move list \<Rightarrow> move option" where
  "choose_qualified side_qualifier cands =
     (if length cands = 0 then None
      else if length cands = 1 then Some (cands ! 0)
      else (case find (on_qualifier_side side_qualifier) cands of
              Some m \<Rightarrow> Some m
            | None \<Rightarrow> Some (cands ! 0)))"

section \<open>The move parsers\<close>

definition e1g1 :: move where
  "e1g1 = \<lparr>from_square = 4, to_square = 6, promotion = None\<rparr>"

definition e8g8 :: move where
  "e8g8 = \<lparr>from_square = 60, to_square = 62, promotion = None\<rparr>"

definition e1c1 :: move where
  "e1c1 = \<lparr>from_square = 4, to_square = 2, promotion = None\<rparr>"

definition e8c8 :: move where
  "e8c8 = \<lparr>from_square = 60, to_square = 58, promotion = None\<rparr>"

definition parse_castling_kingside :: "parser \<Rightarrow> move option" where
  "parse_castling_kingside p =
     (if is_white_turn p then
        (if has_kingside_castling_rights (board p) True then Some e1g1 else None)
      else
        (if has_kingside_castling_rights (board p) False then Some e8g8 else None))"

definition parse_castling_queenside :: "parser \<Rightarrow> move option" where
  "parse_castling_queenside p =
     (if is_white_turn p then
        (if has_queenside_castling_rights (board p) True then Some e1c1 else None)
      else
        (if has_queenside_castling_rights (board p) False then Some e8c8 else None))"

text \<open>
  \<open>re.match(r'P-([A-Z]+)(\d+)\(([QRBN])\)', notation)\<close>: both runs are maximal, since the
  character after the letters must be a digit and the one after the digits a parenthesis.
\<close>

definition match_promotion :: "string \<Rightarrow> (string \<times> string \<times> string) option" where
  "match_promotion notation =
     (if startswith notation ''P-'' then
        (let r = drop 2 notation;
             letters = takeWhile is_AZ r;
             r1 = dropWhile is_AZ r;
             digits = takeWhile is_digit r1;
             r2 = dropWhile is_digit r1
         in if letters \<noteq> [] \<and> digits \<noteq> [] \<and> take 1 r2 = ''('' \<and>
               take 1 (drop 1 r2) \<in> set [''Q'', ''R'', ''B'', ''N''] \<and> take 1 (drop 2 r2) = '')''
            then Some (letters, digits, take 1 (drop 1 r2))
            else None)
      else None)"

definition parse_promotion :: "parser \<Rightarrow> string \<Rightarrow> error + move option" where
  "parse_promotion p notation =
     (case match_promotion notation of
        None \<Rightarrow> Inr None
      | Some (file_desc, rank_desc, promo_piece) \<Rightarrow>
          (case python_int rank_desc of
             Inl e \<Rightarrow> Inl e
           | Inr rank_int \<Rightarrow>
               (case (descriptive_file_to_standard p file_desc,
                      descriptive_rank_to_standard p rank_int) of
                  (Some target_file, Some target_rank) \<Rightarrow>
                    Inr (find (\<lambda>m. to_square m = file_rank_to_square target_file target_rank
                                  \<and> promotion m \<noteq> None \<and> promotion m \<noteq> Some 0
                                  \<and> promotion m = promo_map promo_piece)
                           (legal_moves (board p)))
                | _ \<Rightarrow> Inr None)))"

definition parse_generic_capture :: "parser \<Rightarrow> string \<Rightarrow> string option \<Rightarrow> move option" where
  "parse_generic_capture p piece_char captured_type =
     (let target_piece_type =
            (case captured_type of None \<Rightarrow> None
             | Some t \<Rightarrow> if t \<noteq> [] then piece_map t else None)
      in case piece_map piece_char of
           None \<Rightarrow> None
         | Some pt \<Rightarrow>
             (let candidates =
                    filter (\<lambda>m. moves_own_piece (board p) pt m \<and>
                                (case piece_at (board p) (to_square m) of
                                   None \<Rightarrow> False
                                 | Some captured \<Rightarrow>
                                     target_piece_type = None \<or>
                                     Some (piece_type captured) = target_piece_type))
                      (legal_moves (board p))
              in if length candidates = 1 then Some (candidates ! 0)
                 else if length candidates > 1 then Some (candidates ! 0)
                 else None))"

definition parse_qualified_capture :: "parser \<Rightarrow> string \<Rightarrow> string \<Rightarrow> move option" where
  "parse_qualified_capture p piece_char side_qualifier =
     (case piece_map piece_char of
        None \<Rightarrow> None
      | Some pt \<Rightarrow>
          choose_qualified side_qualifier
            (filter (\<lambda>m. moves_own_piece (board p) pt m \<and> lands_on_piece (board p) m)
               (legal_moves (board p))))"

text \<open>
  The destination tokenizer, written out three times in the source (piece, qualified-piece
  and pawn parser): an unambiguous file token, else an abbreviated file letter, then the
  first run of digits as the rank. The result is \<open>(file_desc, ambiguous_file, rank_desc)\<close>.
\<close>

definition file_patterns :: "string list" where
  "file_patterns = [''QR'', ''QN'', ''QB'', ''KR'', ''KN'', ''KB'', ''Q'', ''K'']"

definition split_destination ::
  "string \<Rightarrow> string option \<times> string option \<times> (error + int option)" where
  "split_destination notation =
     (let file_desc = find (startswith notation) file_patterns;
          n1 = (case file_desc of Some pat \<Rightarrow> drop (length pat) notation | None \<Rightarrow> notation);
          ambiguous_file =
            (if file_desc = None then find (startswith n1) [''R'', ''N'', ''B''] else None);
          n2 = (case ambiguous_file of Some a \<Rightarrow> drop 1 n1 | None \<Rightarrow> n1);
          run = first_digit_run n2
      in (file_desc, ambiguous_file,
          if run = [] then Inr None
          else (case python_int run of Inl e \<Rightarrow> Inl e | Inr r \<Rightarrow> Inr (Some r))))"

definition ambiguous_candidates :: "board \<Rightarrow> nat \<Rightarrow> string \<Rightarrow> int \<Rightarrow> move list" where
  "ambiguous_candidates b pt ambiguous_file target_rank =
     concat (map (\<lambda>target_file. candidates_to b pt (file_rank_to_square target_file target_rank))
               (case AMBIGUOUS_FILES ambiguous_file of Some fs \<Rightarrow> fs | None \<Rightarrow> []))"

text \<open>
  The part of the piece and pawn parsers after the tokenizer: resolve the rank, then
  either try both files of an abbreviated letter or the one file of a full token.
\<close>

definition resolve_destination ::
  "parser \<Rightarrow> nat \<Rightarrow> bool \<Rightarrow> string option \<Rightarrow> string option \<Rightarrow> int \<Rightarrow> move option" where
  "resolve_destination p pt is_capture file_desc ambiguous_file rank_desc =
     (case descriptive_rank_to_standard p rank_desc of
        None \<Rightarrow> None
      | Some target_rank \<Rightarrow>
          (case ambiguous_file of
             Some a \<Rightarrow>
               choose_candidate (board p) is_capture
                 (ambiguous_candidates (board p) pt a target_rank)
           | None \<Rightarrow>
               (case file_desc of
                  None \<Rightarrow> None
                | Some fd \<Rightarrow>
                    (case descriptive_file_to_standard p fd of
                       None \<Rightarrow> None
                     | Some target_file \<Rightarrow>
                         choose_candidate (board p) is_capture
                           (candidates_to (board p) pt
                              (file_rank_to_square target_file target_rank))))))"

definition has_capture_marker :: "string \<Rightarrow> bool" where
  "has_capture_marker notation = (CHR ''x'' \<in> set notation \<or> CHR ''X'' \<in> set notation)"

definition parse_piece_move :: "parser \<Rightarrow> string \<Rightarrow> error + move option" where
  "parse_piece_move p notation0 =
     (case notation0 of
        [] \<Rightarrow> Inl IndexError
      | c # rest \<Rightarrow>
          (let piece_char = [c];
               is_capture = has_capture_marker rest;
               notation = remove_char (CHR ''X'') (remove_char (CHR ''x'') (remove_char (CHR ''-'') rest))
           in if notation \<in> set [''P'', ''R'', ''N'', ''B'', ''Q'', ''K'', []]
              then Inr (parse_generic_capture p piece_char
                          (if notation \<noteq> [] then Some notation else None))
              else (case split_destination notation of
                      (file_desc, ambiguous_file, Inl e) \<Rightarrow> Inl e
                    | (file_desc, ambiguous_file, Inr rank_opt) \<Rightarrow>
                        (case rank_opt of
                           None \<Rightarrow> Inr None
                         | Some rank_desc \<Rightarrow>
                             if file_desc = None \<and> ambiguous_file = None then Inr None
                             else (case piece_map piece_char of
                                     None \<Rightarrow> Inr None
                                   | Some pt \<Rightarrow>
                                       Inr (resolve_destination p pt is_capture
                                              file_desc ambiguous_file rank_desc))))))"

definition parse_pawn_move :: "parser \<Rightarrow> string \<Rightarrow> error + move option" where
  "parse_pawn_move p notation0 =
     (let notation1 = (if startswith notation0 ''P-'' then drop 2 notation0
                       else if startswith notation0 ''P'' then drop 1 notation0
                       else notation0);
          is_capture = has_capture_marker notation1;
          remaining = remove_char (CHR ''X'') (remove_char (CHR ''x'') notation1)
      in if remaining \<in> set [''P'', ''N'', ''B'', ''R'', ''Q'', []]
         then Inr (parse_generic_capture p ''P''
                     (if remaining \<noteq> [] then Some remaining else None))
         else (case split_destination remaining of
                 (file_desc, ambiguous_file, Inl e) \<Rightarrow> Inl e
               | (file_desc, ambiguous_file, Inr rank_opt) \<Rightarrow>
                   (case rank_opt of
                      None \<Rightarrow> Inr None
                    | Some rank_desc \<Rightarrow>
                        if file_desc = None \<and> ambiguous_file = None then Inr None
                        else Inr (resolve_destination p 1 is_capture
                                    file_desc ambiguous_file rank_desc))))"

text \<open>The squares a qualified-piece move may land on: two for an abbreviated file letter.\<close>

definition target_squares_of :: "parser \<Rightarrow> string option \<Rightarrow> string option \<Rightarrow> int \<Rightarrow> int list" where
  "target_squares_of p file_desc ambiguous_file target_rank =
     (case ambiguous_file of
        Some a \<Rightarrow>
          map (\<lambda>f. file_rank_to_square f target_rank)
            (case AMBIGUOUS_FILES a of Some fs \<Rightarrow> fs | None \<Rightarrow> [])
      | None \<Rightarrow>
          (case file_desc of
             None \<Rightarrow> []
           | Some fd \<Rightarrow>
               (case descriptive_file_to_standard p fd of
                  None \<Rightarrow> []
                | Some target_file \<Rightarrow> [file_rank_to_square target_file target_rank])))"

definition parse_qualified_piece_move :: "parser \<Rightarrow> string \<Rightarrow> error + move option" where
  "parse_qualified_piece_move p notation0 =
     (case QUALIFIED_PIECES (take 2 notation0) of
        None \<Rightarrow> Inr None
      | Some (piece_char, side_qualifier) \<Rightarrow>
          (let notation = remove_char (CHR ''X'') (remove_char (CHR ''x'')
                            (remove_char (CHR ''-'') (drop 2 notation0)))
           in if notation = ''P'' \<or> notation = []
              then Inr (parse_qualified_capture p piece_char side_qualifier)
              else (case split_destination notation of
                      (file_desc, ambiguous_file, Inl e) \<Rightarrow> Inl e
                    | (file_desc, ambiguous_file, Inr rank_opt) \<Rightarrow>
                        (case rank_opt of
                           None \<Rightarrow> Inr None
                         | Some rank_desc \<Rightarrow>
                             if file_desc = None \<and> ambiguous_file = None then Inr None
                             else (case piece_map piece_char of
                                     None \<Rightarrow> Inr None
                                   | Some pt \<Rightarrow>
                                       (case descriptive_rank_to_standard p rank_desc of
                                          None \<Rightarrow> Inr None
                                        | Some target_rank \<Rightarrow>
                                            (let target_squares =
                                                   target_squares_of p file_desc ambiguous_file
                                                     target_rank
                                             in if target_squares = [] then Inr None
                                                else Inr (choose_qualified side_qualifier
                                                       (filter (\<lambda>m. to_square m \<in> set target_squares
                                                                  \<and> moves_own_piece (board p) pt m)
                                                          (legal_moves (board p)))))))))))"

text \<open>
  python-chess gives a move a truth value: only the null move (a1 to a1, no promotion)
  is false. \<open>if king_move:\<close> in \<open>parse\<close> tests it.
\<close>

definition move_truthy :: "move option \<Rightarrow> bool" where
  "move_truthy r =
     (case r of
        None \<Rightarrow> False
      | Some m \<Rightarrow> from_square m \<noteq> 0 \<or> to_square m \<noteq> 0 \<or>
                  (promotion m \<noteq> None \<and> promotion m \<noteq> Some 0))"

definition qualified_names :: "string list" where
  "qualified_names = [''QR'', ''KR'', ''QN'', ''KN'', ''QB'', ''KB'']"

definition normalize :: "string \<Rightarrow> string" where
  "normalize notation = strip_annotations (upper (strip notation))"

definition parse :: "parser \<Rightarrow> string \<Rightarrow> error + move option" where
  "parse p notation0 =
     (let notation = normalize notation0
      in if notation = ''O-O'' \<or> notation = ''0-0'' then Inr (parse_castling_kingside p)
         else if notation = ''O-O-O'' \<or> notation = ''0-0-0'' then Inr (parse_castling_queenside p)
         else if CHR ''('' \<in> set notation \<and> CHR '')'' \<in> set notation
         then parse_promotion p notation
         else if find (startswith notation) qualified_names \<noteq> None \<and>
                 length notation > 2 \<and> notation ! 2 \<in> set ''-xX''
         then parse_qualified_piece_move p notation
         else if startswith notation ''R'' \<or> startswith notation ''N'' \<or>
                 startswith notation ''B'' \<or> startswith notation ''Q''
         then parse_piece_move p notation
         else if startswith notation ''K'' then
           (if length notation > 1 \<and> notation ! 1 \<in> set ''-xX''
            then parse_piece_move p notation
            else if startswith notation ''KB'' \<or> startswith notation ''KN'' \<or>
                    startswith notation ''KR''
            then parse_pawn_move p notation
            else (case parse_piece_move p notation of
                    Inl e \<Rightarrow> Inl e
                  | Inr king_move \<Rightarrow>
                      if move_truthy king_move then Inr king_move
                      else parse_pawn_move p notation))
         else parse_pawn_move p notation)"

section \<open>Concrete positions\<close>

definition mv :: "int \<Rightarrow> int \<Rightarrow> move" where
  "mv f t = \<lparr>from_square = f, to_square = t, promotion = None\<rparr>"

definition pc :: "nat \<Rightarrow> bool \<Rightarrow> piece option" where
  "pc t c = Some \<lparr>piece_type = t, color = c\<rparr>"

definition back_rank :: "nat list" where
  "back_rank = [4, 2, 3, 5, 6, 3, 2, 4]"

text \<open>The standard initial position.\<close>

definition initial_pieces :: "int \<Rightarrow> piece option" where
  "initial_pieces sq =
     (if 0 \<le> sq \<and> sq \<le> 7 then pc (back_rank ! nat sq) True
      else if 8 \<le> sq \<and> sq \<le> 15 then pc 1 True
      else if 48 \<le> sq \<and> sq \<le> 55 then pc 1 False
      else if 56 \<le> sq \<and> sq \<le> 63 then pc (back_rank ! nat (sq - 56)) False
      else None)"

definition no_castling_moves :: "move \<Rightarrow> bool" where
  "no_castling_moves m = False"

definition all_rights :: "bool \<Rightarrow> bool" where
  "all_rights c = True"

definition no_rights :: "bool \<Rightarrow> bool" where
  "no_rights c = False"

definition initial_board :: board where
  "initial_board =
     \<lparr>legal_moves =
        [mv 6 23, mv 6 21, mv 1 18, mv 1 16,
         mv 15 23, mv 14 22, mv 13 21, mv 12 20, mv 11 19, mv 10 18, mv 9 17, mv 8 16,
         mv 15 31, mv 14 30, mv 13 29, mv 12 28, mv 11 27, mv 10 26, mv 9 25, mv 8 24],
      piece_at = initial_pieces,
      turn = True,
      has_kingside_castling_rights = all_rights,
      has_queenside_castling_rights = all_rights,
      is_castling = no_castling_moves,
      is_kingside_castling = no_castling_moves\<rparr>"

text \<open>The position after 1. e2-e4, Black to move.\<close>

definition board_after_e4 :: board where
  "board_after_e4 =
     \<lparr>legal_moves =
        [mv 62 47, mv 62 45, mv 57 42, mv 57 40,
         mv 55 47, mv 54 46, mv 53 45, mv 52 44, mv 51 43, mv 50 42, mv 49 41, mv 48 40,
         mv 55 39, mv 54 38, mv 53 37, mv 52 36, mv 51 35, mv 50 34, mv 49 33, mv 48 32],
      piece_at = (\<lambda>sq. if sq = 12 then None else if sq = 28 then pc 1 True
                        else initial_pieces sq),
      turn = False,
      has_kingside_castling_rights = all_rights,
      has_queenside_castling_rights = all_rights,
      is_castling = no_castling_moves,
      is_kingside_castling = no_castling_moves\<rparr>"




text \<open>
  White: king e1, rook a1. Black: king e8, knight a8. White to move, no castling rights.
  The only capture on the board is rook takes knight.
\<close>

definition rook_knight_pieces :: "int \<Rightarrow> piece option" where
  "rook_knight_pieces sq =
     (if sq = 4 then pc 6 True else if sq = 0 then pc 4 True
      else if sq = 60 then pc 6 False else if sq = 56 then pc 2 False else None)"

definition rook_knight_board :: board where
  "rook_knight_board =
     \<lparr>legal_moves =
        [mv 4 13, mv 4 12, mv 4 11, mv 4 5, mv 4 3,
         mv 0 56, mv 0 48, mv 0 40, mv 0 32, mv 0 24, mv 0 16, mv 0 8, mv 0 3, mv 0 2, mv 0 1],
      piece_at = rook_knight_pieces,
      turn = True,
      has_kingside_castling_rights = no_rights,
      has_queenside_castling_rights = no_rights,
      is_castling = no_castling_moves,
      is_kingside_castling = no_castling_moves\<rparr>"

text \<open>
  White: king e1, pawn e5. Black: king e8, pawn d5, which has just advanced two squares.
  White to move; the last legal move is the en passant capture e5 takes d6.
\<close>

definition en_passant_pieces :: "int \<Rightarrow> piece option" where
  "en_passant_pieces sq =
     (if sq = 4 then pc 6 True else if sq = 36 then pc 1 True
      else if sq = 60 then pc 6 False else if sq = 35 then pc 1 False else None)"

definition en_passant_board :: board where
  "en_passant_board =
     \<lparr>legal_moves = [mv 4 13, mv 4 12, mv 4 11, mv 4 5, mv 4 3, mv 36 44, mv 36 43],
      piece_at = en_passant_pieces,
      turn = True,
      has_kingside_castling_rights = no_rights,
      has_queenside_castling_rights = no_rights,
      is_castling = no_castling_moves,
      is_kingside_castling = no_castling_moves\<rparr>"

section \<open>The tie-break as the specification words it\<close>


section \<open>Characters that normalisation leaves alone\<close>

text \<open>
  Not white space, not a lower-case letter, and not a character that can start one of the
  annotation keywords (\<open>ch\<close>, \<open>+\<close>, \<open>mate\<close>, \<open>#\<close>, \<open>e.p.\<close>).
\<close>

definition plain_char :: "char \<Rightarrow> bool" where
  "plain_char c = (\<not> is_space c \<and> \<not> (97 \<le> ord c \<and> ord c \<le> 122) \<and> c \<notin> set ''CME+#'')"

text \<open>
  White: king e1, pawn e7. Black: king a8. White to move; the pawn's step to e8 is listed
  once for each promotion piece, queen first.
\<close>

definition promotion_pieces :: "int \<Rightarrow> piece option" where
  "promotion_pieces sq =
     (if sq = 4 then pc 6 True else if sq = 52 then pc 1 True
      else if sq = 56 then pc 6 False else None)"

definition promotion_board :: board where
  "promotion_board =
     \<lparr>legal_moves =
        [mv 4 13, mv 4 12, mv 4 11, mv 4 5, mv 4 3,
         \<lparr>from_square = 52, to_square = 60, promotion = Some 5\<rparr>,
         \<lparr>from_square = 52, to_square = 60, promotion = Some 4\<rparr>,
         \<lparr>from_square = 52, to_square = 60, promotion = Some 3\<rparr>,
         \<lparr>from_square = 52, to_square = 60, promotion = Some 2\<rparr>],
      piece_at = promotion_pieces,
      turn = True,
      has_kingside_castling_rights = no_rights,
      has_queenside_castling_rights = no_rights,
      is_castling = no_castling_moves,
      is_kingside_castling = no_castling_moves\<rparr>"

section \<open>The formatter\<close>

definition FILE_NAMES :: "int \<rightharpoonup> string" where
  "FILE_NAMES = map_of
     [(0, ''QR''), (1, ''QN''), (2, ''QB''), (3, ''Q''),
      (4, ''K''), (5, ''KB''), (6, ''KN''), (7, ''KR'')]"

definition PIECE_LETTERS :: "nat \<rightharpoonup> string" where
  "PIECE_LETTERS = map_of
     [(1, ''P''), (2, ''N''), (3, ''B''), (4, ''R''), (5, ''Q''), (6, ''K'')]"

text \<open>\<open>str(n)\<close> for an integer: decimal digits, with a sign for a negative number.\<close>

fun digits_of_nat :: "nat \<Rightarrow> string" where
  "digits_of_nat n =
     (if n < 10 then [char_of (48 + n)]
      else digits_of_nat (n div 10) @ [char_of (48 + n mod 10)])"

declare digits_of_nat.simps [simp del]

definition str_int :: "int \<Rightarrow> string" where
  "str_int i = (if i < 0 then CHR ''-'' # digits_of_nat (nat (- i)) else digits_of_nat (nat i))"

text \<open>
  The rank as the mover counts it: \<open>to_rank + 1\<close> for White, \<open>8 - to_rank\<close> for Black,
  where \<open>to_rank = to_sq // 8\<close>.
\<close>

definition rank_num_of :: "bool \<Rightarrow> int \<Rightarrow> int" where
  "rank_num_of white to_sq = (let to_rank = to_sq div 8 in if white then to_rank + 1 else 8 - to_rank)"

text \<open>
  \<open>move.uci()\<close> of python-chess, for squares on the board: the two square names and the
  promotion letter; the null move is written \<open>0000\<close>.
\<close>

definition square_name :: "int \<Rightarrow> string" where
  "square_name sq = [char_of (97 + nat (sq mod 8)), char_of (49 + nat (sq div 8))]"

definition uci :: "move \<Rightarrow> string" where
  "uci m =
     (if \<not> move_truthy (Some m) then ''0000''
      else square_name (from_square m) @ square_name (to_square m) @
           (case promotion m of
              None \<Rightarrow> []
            | Some k \<Rightarrow> (case map_of [(1::nat, ''p''), (2, ''n''), (3, ''b''), (4, ''r''),
                                      (5, ''q''), (6, ''k'')] k of
                           Some l \<Rightarrow> l | None \<Rightarrow> [])))"

text \<open>
  \<open>MoveToDescriptive.convert\<close>. The only partial operation is the lookup
  \<open>FILE_NAMES[...]\<close>, which raises \<open>KeyError\<close> on a missing key.
\<close>

definition convert :: "board \<Rightarrow> move \<Rightarrow> error + string" where
  "convert b m =
     (if is_castling b m then
        (if is_kingside_castling b m then Inr ''O-O'' else Inr ''O-O-O'')
      else
        (case piece_at b (from_square m) of
           None \<Rightarrow> Inr (uci m)
         | Some piece \<Rightarrow>
             (let captured = piece_at b (to_square m);
                  piece_letter = (case PIECE_LETTERS (piece_type piece) of
                                    Some l \<Rightarrow> l | None \<Rightarrow> []);
                  to_file = to_square m mod 8;
                  rank_num = rank_num_of (color piece) (to_square m);
                  promo = (case promotion m of
                             None \<Rightarrow> []
                           | Some k \<Rightarrow>
                               if k \<noteq> 0
                               then ''('' @ (case PIECE_LETTERS k of
                                               Some l \<Rightarrow> l | None \<Rightarrow> []) @ '')''
                               else [])
              in case FILE_NAMES to_file of
                   None \<Rightarrow> Inl KeyError
                 | Some file_name \<Rightarrow>
                     if captured \<noteq> None then
                       (if piece_type piece = 1 then
                          (case FILE_NAMES (from_square m mod 8) of
                             None \<Rightarrow> Inl KeyError
                           | Some from_file_name \<Rightarrow>
                               Inr (from_file_name @ ''Px'' @ file_name @ str_int rank_num @ promo))
                        else Inr (piece_letter @ ''x'' @ file_name @ str_int rank_num @ promo))
                     else Inr (piece_letter @ ''-'' @ file_name @ str_int rank_num @ promo))))"

text \<open>
  The position after 1. e4 d5, White to move. The legal moves: pieces from the highest
  origin square down, then the pawn capture, the single steps and the double steps.
\<close>

definition board_after_e4_d5 :: board where
  "board_after_e4_d5 =
     \<lparr>legal_moves =
        [mv 6 23, mv 6 21, mv 6 12,
         mv 5 40, mv 5 33, mv 5 26, mv 5 19, mv 5 12,
         mv 4 12,
         mv 3 39, mv 3 30, mv 3 21, mv 3 12,
         mv 1 18, mv 1 16,
         mv 28 35,
         mv 28 36, mv 15 23, mv 14 22, mv 13 21, mv 11 19, mv 10 18, mv 9 17, mv 8 16,
         mv 15 31, mv 14 30, mv 13 29, mv 11 27, mv 10 26, mv 9 25, mv 8 24],
      piece_at = (\<lambda>sq. if sq = 12 \<or> sq = 51 then None else if sq = 28 then pc 1 True
                        else if sq = 35 then pc 1 False else initial_pieces sq),
      turn = True,
      has_kingside_castling_rights = all_rights,
      has_queenside_castling_rights = all_rights,
      is_castling = no_castling_moves,
      is_kingside_castling = no_castling_moves\<rparr>"






section \<open>Candidate lists, stated independently of the parsers\<close>







section \<open>Verification\<close>

subsection \<open>Normalisation of fixed tokens\<close>

lemma normalize_castling_tokens:
  "normalize ''O-O'' = ''O-O''" "normalize ''0-0'' = ''0-0''"
  "normalize ''O-O-O'' = ''O-O-O''" "normalize ''0-0-0'' = ''0-0-0''"
  by code_simp+

subsection \<open>End-to-end openings\<close>

text \<open>
  C2. On the initial position, White to move, \<open>P-K4\<close> is the pawn move e2-e4 (12 to 28),
  \<open>N-KB3\<close> the knight move g1-f3 (6 to 21) and \<open>P-Q4\<close> the pawn move d2-d4 (11 to 27);
  after 1. e4, Black to move, \<open>P-K4\<close> is the pawn move e7-e5 (52 to 36).
\<close>

theorem end_to_end_openings:
  "parse (DescriptiveNotationParser initial_board) ''P-K4'' = Inr (Some (mv 12 28))
   \<and> parse (DescriptiveNotationParser board_after_e4) ''P-K4'' = Inr (Some (mv 52 36))
   \<and> parse (DescriptiveNotationParser initial_board) ''N-KB3'' = Inr (Some (mv 6 21))
   \<and> parse (DescriptiveNotationParser initial_board) ''P-Q4'' = Inr (Some (mv 11 27))
   \<and> piece_at initial_board 12 = pc 1 True \<and> piece_at board_after_e4 52 = pc 1 False
   \<and> piece_at initial_board 6 = pc 2 True \<and> piece_at initial_board 11 = pc 1 True"
  by code_simp

subsection \<open>Castling\<close>


subsection \<open>Generic captures\<close>

lemma generic_capture_dispatch:
  assumes "k \<in> set ''PNBRQK''" "c \<in> set ''PNBRQ''" "x \<in> set ''xX''"
  shows "parse p [k, x, c] = Inr (parse_generic_capture p [k] (Some [c]))"
  using assms by (auto; code_simp)

lemma generic_capture_none:
  assumes "piece_map k = Some pt"
    and "\<forall>m \<in> set (legal_moves (board p)).
           moves_own_piece (board p) pt m \<longrightarrow> piece_at (board p) (to_square m) = None"
  shows "parse_generic_capture p k ct = None"
proof -
  have "filter (\<lambda>m. moves_own_piece (board p) pt m \<and>
          (case piece_at (board p) (to_square m) of None \<Rightarrow> False
           | Some captured \<Rightarrow> tt = None \<or> Some (piece_type captured) = tt))
        (legal_moves (board p)) = []" for tt
    using assms(2) by (auto simp: filter_empty_conv)
  then show ?thesis
    using assms(1) by (simp add: parse_generic_capture_def Let_def)
qed

text \<open>
  C10. A generic capture (piece letter, capture marker, captured-piece letter) fails
  whenever every legal move of an own piece of the named kind lands on an empty square.
  That is the case when the only capture open to that kind is en passant, where the
  captured pawn does not stand on the destination square.
\<close>

theorem generic_capture_needs_occupied_destination:
  assumes "k \<in> set ''PNBRQK''" "c \<in> set ''PNBRQ''" "x \<in> set ''xX''"
    and "piece_map [k] = Some pt"
    and "\<forall>m \<in> set (legal_moves (board p)).
           moves_own_piece (board p) pt m \<longrightarrow> piece_at (board p) (to_square m) = None"
  shows "parse p [k, x, c] = Inr None"
  using generic_capture_dispatch[OF assms(1,2,3)] generic_capture_none[OF assms(4,5)]
  by simp

theorem generic_capture_needs_occupied_destination_witness:
  "parse (DescriptiveNotationParser en_passant_board) ''PxP'' = Inr None
   \<and> mv 36 43 \<in> set (legal_moves en_passant_board)
   \<and> piece_at en_passant_board 36 = pc 1 True
   \<and> piece_at en_passant_board 35 = pc 1 False
   \<and> piece_at en_passant_board 43 = None"
proof -
  have k: "CHR ''P'' \<in> set ''PNBRQK''" and c: "CHR ''P'' \<in> set ''PNBRQ''"
    and x: "CHR ''x'' \<in> set ''xX''" by simp_all
  have pm: "piece_map ''P'' = Some 1" by (simp add: piece_map_def)
  have empty: "\<forall>m \<in> set (legal_moves (board (DescriptiveNotationParser en_passant_board))).
           moves_own_piece (board (DescriptiveNotationParser en_passant_board)) 1 m
           \<longrightarrow> piece_at (board (DescriptiveNotationParser en_passant_board)) (to_square m) = None"
    by (simp add: DescriptiveNotationParser_def en_passant_board_def en_passant_pieces_def
          moves_own_piece_def mv_def pc_def)
  have rest: "mv 36 43 \<in> set (legal_moves en_passant_board)
   \<and> piece_at en_passant_board 36 = pc 1 True
   \<and> piece_at en_passant_board 35 = pc 1 False
   \<and> piece_at en_passant_board 43 = None"
    by (simp add: en_passant_board_def en_passant_pieces_def)
  from generic_capture_needs_occupied_destination[OF k c x pm empty] rest
  show ?thesis by simp
qed

text \<open>
  The plain generic-capture path filters by the captured kind: a move it returns is a legal
  move of an own piece of the named kind onto an occupied square, and the piece there has
  the kind of the captured-piece letter.
\<close>

lemma first_or_none:
  "(if length xs = 1 then Some (xs ! 0) else if length xs > 1 then Some (xs ! 0) else None)
   = (case xs of [] \<Rightarrow> None | x # _ \<Rightarrow> Some x)"
  by (cases xs) auto

lemma filter_head_sat: "filter P xs = m # ys \<Longrightarrow> m \<in> set xs \<and> P m"
  by (auto dest!: filter_eq_ConsD)

lemma generic_capture_filter:
  assumes "parse_generic_capture p k (Some t) = Some m" and "piece_map t = Some ct"
  shows "m \<in> set (legal_moves (board p))
         \<and> (\<exists>pt. piece_map k = Some pt \<and> moves_own_piece (board p) pt m)
         \<and> (\<exists>captured. piece_at (board p) (to_square m) = Some captured
                \<and> piece_type captured = ct)"
proof -
  from assms(1) obtain pt where pt: "piece_map k = Some pt"
    by (auto simp: parse_generic_capture_def Let_def split: option.splits)
  have t: "t \<noteq> []" using assms(2) by (auto simp: piece_map_def)
  let ?P = "\<lambda>m. moves_own_piece (board p) pt m \<and>
          (case piece_at (board p) (to_square m) of None \<Rightarrow> False
           | Some captured \<Rightarrow> piece_map t = None \<or> Some (piece_type captured) = piece_map t)"
  have "parse_generic_capture p k (Some t)
        = (case filter ?P (legal_moves (board p)) of [] \<Rightarrow> None | x # _ \<Rightarrow> Some x)"
    unfolding parse_generic_capture_def Let_def first_or_none using pt t
    by (simp cong: option.case_cong)
  with assms(1) obtain ys where "filter ?P (legal_moves (board p)) = m # ys"
    by (auto split: list.splits)
  from filter_head_sat[OF this] pt assms(2) show ?thesis
    by (auto split: option.splits)
qed

text \<open>
  C4, the qualified generic-capture path: \<open>QRxP\<close> (queen's rook takes pawn) on a board
  where the rook can only take a knight returns that capture, although the plain form
  \<open>RxP\<close> fails there and \<open>RxN\<close> finds it. The captured-piece letter is dropped
  before \<open>parse_qualified_capture\<close> is called.
\<close>

theorem qualified_capture_ignores_captured_kind:
  "parse (DescriptiveNotationParser rook_knight_board) ''QRxP'' = Inr (Some (mv 0 56))
   \<and> piece_at rook_knight_board 56 = pc 2 False
   \<and> parse (DescriptiveNotationParser rook_knight_board) ''RxP'' = Inr None
   \<and> parse (DescriptiveNotationParser rook_knight_board) ''RxN'' = Inr (Some (mv 0 56))"
  by code_simp

subsection \<open>Normalisation is the identity on plain text\<close>

lemma dropWhile_none: "list_all (\<lambda>c. \<not> P c) s \<Longrightarrow> dropWhile P s = s"
  by (cases s) auto

lemma strip_plain: "list_all plain_char s \<Longrightarrow> strip s = s"
proof -
  assume a: "list_all plain_char s"
  then have ns: "list_all (\<lambda>c. \<not> is_space c) s"
    by (auto simp: list_all_iff plain_char_def)
  then have "list_all (\<lambda>c. \<not> is_space c) (rev s)" by (simp add: list_all_iff)
  with ns show ?thesis by (simp add: strip_def dropWhile_none)
qed

lemma to_upper_plain: "plain_char c \<Longrightarrow> to_upper c = c"
  by (auto simp: plain_char_def to_upper_def)

lemma upper_plain: "list_all plain_char s \<Longrightarrow> upper s = s"
  by (auto simp: upper_def list_all_iff to_upper_plain intro: map_idI)

lemma keyword_rest_plain: "plain_char c \<Longrightarrow> keyword_rest (c # cs) = None"
  by (simp add: to_upper_plain) (simp add: plain_char_def)

lemma annotation_match_plain:
  assumes "plain_char c"
  shows "annotation_match (c # cs) = None"
proof -
  have "dropWhile is_space (c # cs) = c # cs"
    using assms by (simp add: plain_char_def)
  then show ?thesis
    unfolding annotation_match_def by (simp only: keyword_rest_plain[OF assms] option.case)
qed

lemma strip_annotations_plain: "list_all plain_char s \<Longrightarrow> strip_annotations s = s"
  by (induction s) (simp_all add: annotation_match_plain del: keyword_rest.simps)

lemma normalize_plain: "list_all plain_char s \<Longrightarrow> normalize s = s"
  by (simp add: normalize_def strip_plain upper_plain strip_annotations_plain)

lemma digit_plain: "is_digit c \<Longrightarrow> plain_char c \<and> \<not> is_AZ c"
proof -
  assume d: "is_digit c"
  have "ord (CHR ''C'') = 67" "ord (CHR ''M'') = 77" "ord (CHR ''E'') = 69"
    "ord (CHR ''+'') = 43" "ord (CHR ''#'') = 35" by (simp_all add: ord_def)
  with d show ?thesis
    by (auto simp: is_digit_def plain_char_def is_AZ_def is_space_def)
qed

lemma digits_plain: "list_all is_digit ds \<Longrightarrow> list_all plain_char ds"
  by (auto simp: list_all_iff digit_plain)

lemma takeWhile_run:
  "list_all P xs \<Longrightarrow> ys = [] \<or> \<not> P (hd ys) \<Longrightarrow> takeWhile P (xs @ ys) = xs"
  by (cases ys) (auto simp: list_all_iff)

lemma dropWhile_run:
  "list_all P xs \<Longrightarrow> ys = [] \<or> \<not> P (hd ys) \<Longrightarrow> dropWhile P (xs @ ys) = ys"
  by (cases ys) (auto simp: list_all_iff)

lemma file_token_cases:
  assumes "FILE_MAP f = Some file"
  shows "(f, file) \<in> set [(''QR'', CHR ''a''), (''QN'', CHR ''b''), (''QB'', CHR ''c''),
           (''Q'', CHR ''d''), (''K'', CHR ''e''), (''KB'', CHR ''f''), (''KN'', CHR ''g''),
           (''KR'', CHR ''h'')]"
  using assms unfolding FILE_MAP_def by (rule map_of_SomeD)

lemma file_token_shape:
  assumes "FILE_MAP f = Some file"
  shows "f \<noteq> [] \<and> list_all is_AZ f \<and> list_all plain_char f"
proof -
  have "list_all (\<lambda>f. f \<noteq> [] \<and> list_all is_AZ f \<and> list_all plain_char f)
          [''QR'', ''QN'', ''QB'', ''Q'', ''K'', ''KB'', ''KN'', ''KR'']"
    by code_simp
  with file_token_cases[OF assms] show ?thesis by auto
qed

subsection \<open>Promotion\<close>

lemma match_promotion_shape:
  assumes f: "FILE_MAP f = Some file" and ne: "ds \<noteq> []" and dg: "list_all is_digit ds"
    and l: "l \<in> set ''QRBN''"
  shows "match_promotion (''P-'' @ f @ ds @ ''('' @ [l] @ '')'') = Some (f, ds, [l])"
proof -
  let ?tail = "''('' @ [l] @ '')''"
  from file_token_shape[OF f] have fne: "f \<noteq> []" and faz: "list_all is_AZ f" by auto
  from ne dg have hd_digit: "is_digit (hd ds)" by (cases ds) auto
  then have "\<not> is_AZ (hd (ds @ ?tail))" using ne digit_plain by (cases ds) auto
  then have tw1: "takeWhile is_AZ (f @ ds @ ?tail) = f"
    and dw1: "dropWhile is_AZ (f @ ds @ ?tail) = ds @ ?tail"
    using faz by (simp_all add: takeWhile_run dropWhile_run)
  have "\<not> is_digit (hd ?tail)" by (simp add: is_digit_def ord_def)
  then have tw2: "takeWhile is_digit (ds @ ?tail) = ds"
    and dw2: "dropWhile is_digit (ds @ ?tail) = ?tail"
    using dg by (simp_all add: takeWhile_run dropWhile_run)
  have sw: "startswith (''P-'' @ f @ ds @ ?tail) ''P-''" by (simp add: startswith_def)
  have dr: "drop 2 (''P-'' @ f @ ds @ ?tail) = f @ ds @ ?tail" by simp
  show ?thesis
    unfolding match_promotion_def Let_def
    using l by (simp only: sw dr tw1 dw1 tw2 dw2 if_True) (use fne ne in auto)
qed

lemma promo_codes: "l \<in> set ''QRBN'' \<Longrightarrow> \<exists>k. promo_map [l] = Some k \<and> k \<noteq> 0"
  by (auto simp: promo_map_def)

lemma promotion_dispatch:
  assumes f: "FILE_MAP f = Some file" and ne: "ds \<noteq> []" and dg: "list_all is_digit ds"
    and l: "l \<in> set ''QRBN''" and r: "python_int ds = Inr r" and k: "promo_map [l] = Some k"
    and k0: "k \<noteq> 0"
  shows "parse p (''P-'' @ f @ ds @ ''('' @ [l] @ '')'')
         = Inr (find (\<lambda>m. to_square m
                             = file_rank_to_square file (if is_white_turn p then r - 1 else 8 - r)
                           \<and> promotion m = Some k)
                  (legal_moves (board p)))"
proof -
  let ?s = "''P-'' @ f @ ds @ ''('' @ [l] @ '')''"
  have pl: "plain_char l" using l by (auto; code_simp)
  have "list_all plain_char ''P-''" "list_all plain_char ''(''" "list_all plain_char '')''"
    by code_simp+
  with file_token_shape[OF f] digits_plain[OF dg] pl have "list_all plain_char ?s" by simp
  then have n: "normalize ?s = ?s" by (rule normalize_plain)
  have nc: "?s \<noteq> ''O-O''" "?s \<noteq> ''0-0''" "?s \<noteq> ''O-O-O''" "?s \<noteq> ''0-0-0''" by simp_all
  have par: "CHR ''('' \<in> set ?s \<and> CHR '')'' \<in> set ?s" by simp
  have pred: "find (\<lambda>m. to_square m = sq \<and> promotion m \<noteq> None \<and> promotion m \<noteq> Some 0
                  \<and> promotion m = Some k) xs
            = find (\<lambda>m. to_square m = sq \<and> promotion m = Some k) xs" for sq xs
    using k0 by (intro find_cong) auto
  have "parse p ?s = parse_promotion p ?s"
    unfolding parse_def Let_def n using nc par by (simp only: simp_thms if_True if_False)
  also have "\<dots> = Inr (find (\<lambda>m. to_square m
                             = file_rank_to_square file (if is_white_turn p then r - 1 else 8 - r)
                           \<and> promotion m = Some k)
                  (legal_moves (board p)))"
    unfolding parse_promotion_def match_promotion_shape[OF f ne dg l]
      descriptive_file_to_standard_def descriptive_rank_to_standard_def
    by (cases "is_white_turn p")
       (simp_all only: prod.case sum.case option.case r k f if_True if_False pred)
  finally show ?thesis .
qed

subsection \<open>Formatter and parser as inverses\<close>

lemma file_of_square:
  "\<exists>tok file. FILE_NAMES (sq mod 8) = Some tok \<and> FILE_MAP tok = Some file
      \<and> tok \<in> set file_patterns \<and> ord file - ord (CHR ''a'') = sq mod 8"
proof -
  have "sq mod 8 = 0 \<or> sq mod 8 = 1 \<or> sq mod 8 = 2 \<or> sq mod 8 = 3 \<or> sq mod 8 = 4
        \<or> sq mod 8 = 5 \<or> sq mod 8 = 6 \<or> sq mod 8 = 7"
    by presburger
  then show ?thesis
    by (elim disjE) (simp_all add: FILE_NAMES_def FILE_MAP_def file_patterns_def ord_def)
qed

lemma square_of_file_rank:
  assumes "ord file - ord (CHR ''a'') = sq mod 8"
  shows "file_rank_to_square file (sq div 8) = sq"
  using assms by (simp add: file_rank_to_square_def)

lemma str_int_digits:
  "str_int 1 = ''1''" "str_int 2 = ''2''" "str_int 3 = ''3''" "str_int 4 = ''4''"
  "str_int 5 = ''5''" "str_int 6 = ''6''" "str_int 7 = ''7''" "str_int 8 = ''8''"
  by code_simp+

lemma rank_digit_cases:
  assumes "1 \<le> r" "r \<le> 8"
  shows "\<exists>d. str_int r = [d] \<and> d \<in> set ''12345678'' \<and> ord d - 48 = r"
proof -
  have "r = 1 \<or> r = 2 \<or> r = 3 \<or> r = 4 \<or> r = 5 \<or> r = 6 \<or> r = 7 \<or> r = 8"
    using assms by presburger
  then show ?thesis
    by (elim disjE) (simp_all add: str_int_digits ord_def)
qed

lemma rank_num_range:
  assumes "0 \<le> sq" "sq < 64"
  shows "1 \<le> rank_num_of w sq \<and> rank_num_of w sq \<le> 8"
  using assms by (auto simp: rank_num_of_def Let_def)

lemma rank_of_rank_num:
  "descriptive_rank_to_standard p (rank_num_of (is_white_turn p) sq) = Some (sq div 8)"
  by (simp add: descriptive_rank_to_standard_def rank_num_of_def Let_def)

lemma destination_tokens:
  assumes "tok \<in> set file_patterns" "d \<in> set ''12345678''"
  shows "split_destination (tok @ [d]) = (Some tok, None, Inr (Some (ord d - 48)))"
    and "list_all plain_char (tok @ [d])"
    and "list_all (\<lambda>c. c \<notin> set ''-xX()'') (tok @ [d])"
    and "length (tok @ [d]) \<ge> 2"
    and "list_all is_digit [d]"
proof -
  have "list_all (\<lambda>tok. list_all (\<lambda>d.
          split_destination (tok @ [d]) = (Some tok, None, Inr (Some (ord d - 48)))
          \<and> list_all plain_char (tok @ [d])
          \<and> list_all (\<lambda>c. c \<notin> set ''-xX()'') (tok @ [d])
          \<and> length (tok @ [d]) \<ge> 2 \<and> list_all is_digit [d]) ''12345678'') file_patterns"
    by code_simp
  with assms show "split_destination (tok @ [d]) = (Some tok, None, Inr (Some (ord d - 48)))"
    and "list_all plain_char (tok @ [d])"
    and "list_all (\<lambda>c. c \<notin> set ''-xX()'') (tok @ [d])"
    and "length (tok @ [d]) \<ge> 2"
    and "list_all is_digit [d]"
    unfolding list_all_iff by blast+
qed


lemma strip_no_space: "list_all (\<lambda>c. \<not> is_space c) s \<Longrightarrow> strip s = s"
proof -
  assume ns: "list_all (\<lambda>c. \<not> is_space c) s"
  then have "list_all (\<lambda>c. \<not> is_space c) (rev s)" by (simp add: list_all_iff)
  with ns show ?thesis by (simp add: strip_def dropWhile_none)
qed

lemma normalize_capture_marker:
  assumes "plain_char L" and "list_all plain_char t"
  shows "normalize (L # CHR ''x'' # t) = L # CHR ''X'' # t"
proof -
  have x: "\<not> is_space (CHR ''x'')" "to_upper (CHR ''x'') = CHR ''X''" "plain_char (CHR ''X'')"
    by code_simp+
  have "list_all (\<lambda>c. \<not> is_space c) (L # CHR ''x'' # t)"
    using assms x(1) by (auto simp: list_all_iff plain_char_def)
  then have s: "strip (L # CHR ''x'' # t) = L # CHR ''x'' # t" by (rule strip_no_space)
  have u: "upper (L # CHR ''x'' # t) = L # CHR ''X'' # t"
    using assms x(2) upper_plain[OF assms(2)] by (simp add: upper_def to_upper_plain)
  have "list_all plain_char (L # CHR ''X'' # t)" using assms x(3) by simp
  then show ?thesis
    unfolding normalize_def s u by (rule strip_annotations_plain)
qed

lemma dispatch_piece:
  assumes "L \<in> set ''NBRQK''" and "sep \<in> set ''-X''"
    and "list_all (\<lambda>c. c \<notin> set ''-xX()'') t"
    and n: "normalize s = L # sep # t"
  shows "parse p s = parse_piece_move p (L # sep # t)"
proof -
  have np: "CHR ''('' \<notin> set t" using assms(3) by (auto simp: list_all_iff)
  show ?thesis
    unfolding parse_def Let_def n using assms(1,2) np
    by (auto simp: startswith_def qualified_names_def)
qed

lemma remove_absent: "c \<notin> set t \<Longrightarrow> remove_char c t = t"
  by (auto simp: remove_char_def filter_id_conv)

lemma piece_move_body:
  assumes "sep \<in> set ''-X''"
    and t: "list_all (\<lambda>c. c \<notin> set ''-xX()'') t" and len: "length t \<ge> 2"
    and sp: "split_destination t = (Some tok, None, Inr (Some r))"
    and pm: "piece_map [L] = Some pt"
  shows "parse_piece_move p (L # sep # t)
         = Inr (resolve_destination p pt (sep = CHR ''X'') (Some tok) None r)"
proof -
  from t have abs: "CHR ''-'' \<notin> set t" "CHR ''x'' \<notin> set t" "CHR ''X'' \<notin> set t"
    by (auto simp: list_all_iff)
  have rm: "remove_char (CHR ''X'') (remove_char (CHR ''x'') (remove_char (CHR ''-'') (sep # t))) = t"
    using assms(1) abs by (auto simp: remove_char_def filter_id_conv)
  have cap: "has_capture_marker (sep # t) = (sep = CHR ''X'')"
    using assms(1) abs by (auto simp: has_capture_marker_def)
  have ng: "t \<notin> set [''P'', ''R'', ''N'', ''B'', ''Q'', ''K'', []]" using len by auto
  show ?thesis
    unfolding parse_piece_move_def Let_def list.case rm cap
    using ng by (simp only: if_False sp prod.case sum.case option.case pm) simp
qed

lemma dispatch_pawn:
  assumes "list_all (\<lambda>c. c \<notin> set ''-xX()'') t" and n: "normalize s = ''P-'' @ t"
  shows "parse p s = parse_pawn_move p (''P-'' @ t)"
proof -
  have np: "CHR ''('' \<notin> set t" using assms(1) by (auto simp: list_all_iff)
  show ?thesis
    unfolding parse_def Let_def n using np
    by (auto simp: startswith_def qualified_names_def)
qed

lemma pawn_move_body:
  assumes t: "list_all (\<lambda>c. c \<notin> set ''-xX()'') t" and len: "length t \<ge> 2"
    and sp: "split_destination t = (Some tok, None, Inr (Some r))"
  shows "parse_pawn_move p (''P-'' @ t) = Inr (resolve_destination p 1 False (Some tok) None r)"
proof -
  from t have abs: "CHR ''x'' \<notin> set t" "CHR ''X'' \<notin> set t" by (auto simp: list_all_iff)
  have sw: "startswith (''P-'' @ t) ''P-''" by (simp add: startswith_def)
  have rm: "remove_char (CHR ''X'') (remove_char (CHR ''x'') t) = t"
    using abs by (simp add: remove_absent)
  have cap: "has_capture_marker t = False" using abs by (simp add: has_capture_marker_def)
  have ng: "t \<notin> set [''P'', ''N'', ''B'', ''R'', ''Q'', []]" using len by auto
  have dr: "drop 2 (''P-'' @ t) = t" by simp
  show ?thesis
    unfolding parse_pawn_move_def Let_def
    using ng by (simp only: sw if_True dr rm cap if_False sp prod.case sum.case option.case) simp
qed

lemma resolve_single:
  assumes "FILE_MAP tok = Some file" and "descriptive_rank_to_standard p r = Some rk"
    and "candidates_to (board p) pt (file_rank_to_square file rk) = [m]"
  shows "resolve_destination p pt cap (Some tok) None r = Some m"
  using assms
  by (simp add: resolve_destination_def descriptive_file_to_standard_def choose_candidate_def)

lemma find_single: "filter P xs = [m] \<Longrightarrow> find P xs = Some m"
  by (induction xs) (auto split: if_splits)

lemma python_int_digit: "d \<in> set ''12345678'' \<Longrightarrow> python_int [d] = Inr (ord d - 48)"
  by (auto simp: python_int_def int_max_str_digits_def is_digit_def ord_def)

lemma piece_letter_cases:
  assumes "pt \<in> set [1, 2, 3, 4, 5, 6]"
  shows "\<exists>L. PIECE_LETTERS pt = Some [L] \<and> piece_map [L] = Some pt \<and> L \<in> set ''PNBRQK''
            \<and> (pt = 1) = (L = CHR ''P'') \<and> plain_char L"
proof -
  have "list_all plain_char ''PNBRQK''" by code_simp
  with assms show ?thesis
    by (auto simp: PIECE_LETTERS_def piece_map_def)
qed

lemma promo_letter_cases:
  assumes "k \<in> set [2, 3, 4, 5]"
  shows "\<exists>l. PIECE_LETTERS k = Some [l] \<and> promo_map [l] = Some k \<and> l \<in> set ''QRBN'' \<and> k \<noteq> 0"
  using assms by (auto simp: PIECE_LETTERS_def promo_map_def)


lemma plain_punctuation: "plain_char (CHR ''-'')" "plain_char (CHR ''P'')"
  by code_simp+

lemma round_trip_plain:
  assumes sq: "0 \<le> to_square m" "to_square m < 64"
    and nc: "\<not> is_castling b m"
    and pcf: "piece_at b (from_square m) = Some mover"
    and pt: "piece_type mover \<in> set [1, 2, 3, 4, 5, 6]"
    and npc: "\<not> (piece_type mover = 1 \<and> piece_at b (to_square m) \<noteq> None)"
    and pr: "promotion m = None"
    and single: "candidates_to b (piece_type mover) (to_square m) = [m]"
  shows "\<exists>s. convert b m = Inr s \<and> parse (DescriptiveNotationParser b) s = Inr (Some m)"
proof -
  let ?p = "DescriptiveNotationParser b"
  have pb: "board ?p = b" and pw: "is_white_turn ?p = turn b"
    by (simp_all add: DescriptiveNotationParser_def)
  from single have "m \<in> set (candidates_to b (piece_type mover) (to_square m))" by simp
  then have "moves_own_piece b (piece_type mover) m" by (simp add: candidates_to_def)
  with pcf have col: "color mover = turn b" by (simp add: moves_own_piece_def)
  from file_of_square[of "to_square m"] obtain tok fl where
    tok: "FILE_NAMES (to_square m mod 8) = Some tok" "FILE_MAP tok = Some fl"
      "tok \<in> set file_patterns" "ord fl - ord (CHR ''a'') = to_square m mod 8"
    by blast
  from rank_digit_cases[of "rank_num_of (turn b) (to_square m)"] rank_num_range[OF sq]
  obtain d where d: "str_int (rank_num_of (turn b) (to_square m)) = [d]"
      "d \<in> set ''12345678''" "ord d - 48 = rank_num_of (turn b) (to_square m)"
    by blast
  from piece_letter_cases[OF pt] obtain L where
    L: "PIECE_LETTERS (piece_type mover) = Some [L]" "piece_map [L] = Some (piece_type mover)"
      "L \<in> set ''PNBRQK''" "(piece_type mover = 1) = (L = CHR ''P'')" "plain_char L"
    by blast
  let ?t = "tok @ [d]"
  note dt = destination_tokens[OF tok(3) d(2)]
  have rk: "descriptive_rank_to_standard ?p (ord d - 48) = Some (to_square m div 8)"
    using rank_of_rank_num[of ?p "to_square m"] by (simp add: pw d(3))
  have res: "resolve_destination ?p (piece_type mover) cap (Some tok) None (ord d - 48) = Some m"
    for cap
    by (rule resolve_single[OF tok(2) rk]) (simp add: square_of_file_rank[OF tok(4)] single pb)
  show ?thesis
  proof (cases "piece_type mover = 1")
    case True
    with npc have emp: "piece_at b (to_square m) = None" by simp
    have c: "convert b m = Inr (''P-'' @ ?t)"
      using True L(1,4) by (simp add: convert_def nc pcf emp pr tok(1) col d(1))
    have "list_all plain_char (''P-'' @ ?t)" using dt(2) plain_punctuation by simp
    then have n: "normalize (''P-'' @ ?t) = ''P-'' @ ?t" by (rule normalize_plain)
    have "parse ?p (''P-'' @ ?t) = Inr (Some m)"
      unfolding dispatch_pawn[OF dt(3) n] pawn_move_body[OF dt(3) dt(4) dt(1)]
      using res[of False] True by simp
    with c show ?thesis by blast
  next
    case False
    with L have Lp: "L \<in> set ''NBRQK''" by auto
    show ?thesis
    proof (cases "piece_at b (to_square m)")
      case None
      have c: "convert b m = Inr (L # CHR ''-'' # ?t)"
        using False L(1) by (simp add: convert_def nc pcf None pr tok(1) col d(1))
      have "list_all plain_char (L # CHR ''-'' # ?t)" using dt(2) plain_punctuation L(5) by simp
      then have n: "normalize (L # CHR ''-'' # ?t) = L # CHR ''-'' # ?t" by (rule normalize_plain)
      have sep: "CHR ''-'' \<in> set ''-X''" by simp
      have "parse ?p (L # CHR ''-'' # ?t) = Inr (Some m)"
        unfolding dispatch_piece[OF Lp sep dt(3) n] piece_move_body[OF sep dt(3) dt(4) dt(1) L(2)]
        using res by simp
      with c show ?thesis by blast
    next
      case (Some cp)
      have c: "convert b m = Inr (L # CHR ''x'' # ?t)"
        using False L(1) by (simp add: convert_def nc pcf Some pr tok(1) col d(1))
      have n: "normalize (L # CHR ''x'' # ?t) = L # CHR ''X'' # ?t"
        by (rule normalize_capture_marker[OF L(5) dt(2)])
      have sep: "CHR ''X'' \<in> set ''-X''" by simp
      have "parse ?p (L # CHR ''x'' # ?t) = Inr (Some m)"
        unfolding dispatch_piece[OF Lp sep dt(3) n] piece_move_body[OF sep dt(3) dt(4) dt(1) L(2)]
        using res by simp
      with c show ?thesis by blast
    qed
  qed
qed

lemma round_trip_promotion:
  assumes sq: "0 \<le> to_square m" "to_square m < 64"
    and nc: "\<not> is_castling b m"
    and pcf: "piece_at b (from_square m) = Some mover"
    and pawn: "piece_type mover = 1" and col: "color mover = turn b"
    and emp: "piece_at b (to_square m) = None"
    and pr: "promotion m = Some k" and k: "k \<in> set [2, 3, 4, 5]"
    and single: "filter (\<lambda>m'. to_square m' = to_square m \<and> promotion m' = Some k)
                   (legal_moves b) = [m]"
  shows "\<exists>s. convert b m = Inr s \<and> parse (DescriptiveNotationParser b) s = Inr (Some m)"
proof -
  let ?p = "DescriptiveNotationParser b"
  have pb: "board ?p = b" and pw: "is_white_turn ?p = turn b"
    by (simp_all add: DescriptiveNotationParser_def)
  from file_of_square[of "to_square m"] obtain tok fl where
    tok: "FILE_NAMES (to_square m mod 8) = Some tok" "FILE_MAP tok = Some fl"
      "tok \<in> set file_patterns" "ord fl - ord (CHR ''a'') = to_square m mod 8"
    by blast
  from rank_digit_cases[of "rank_num_of (turn b) (to_square m)"] rank_num_range[OF sq]
  obtain d where d: "str_int (rank_num_of (turn b) (to_square m)) = [d]"
      "d \<in> set ''12345678''" "ord d - 48 = rank_num_of (turn b) (to_square m)"
    by blast
  from promo_letter_cases[OF k] obtain l where
    l: "PIECE_LETTERS k = Some [l]" "promo_map [l] = Some k" "l \<in> set ''QRBN''" "k \<noteq> 0"
    by blast
  note dt = destination_tokens[OF tok(3) d(2)]
  have c: "convert b m = Inr (''P-'' @ tok @ [d] @ ''('' @ [l] @ '')'')"
    using l(1,4) by (simp add: convert_def nc pcf emp pr tok(1) col d(1) pawn PIECE_LETTERS_def)
  have ne: "[d] \<noteq> []" by simp
  have rk: "(if is_white_turn ?p then (ord d - 48) - 1 else 8 - (ord d - 48)) = to_square m div 8"
    by (simp add: pw d(3) rank_num_of_def Let_def)
  have "parse ?p (''P-'' @ tok @ [d] @ ''('' @ [l] @ '')'') = Inr (Some m)"
    unfolding promotion_dispatch[OF tok(2) ne dt(5) l(3) python_int_digit[OF d(2)] l(2) l(4)]
      rk square_of_file_rank[OF tok(4)] pb
    using find_single[OF single] by simp
  with c show ?thesis by blast
qed

lemma round_trip_castling:
  assumes "is_castling b m"
    and "is_kingside_castling b m \<longrightarrow>
           has_kingside_castling_rights b (turn b) \<and> m = (if turn b then e1g1 else e8g8)"
    and "\<not> is_kingside_castling b m \<longrightarrow>
           has_queenside_castling_rights b (turn b) \<and> m = (if turn b then e1c1 else e8c8)"
  shows "\<exists>s. convert b m = Inr s \<and> parse (DescriptiveNotationParser b) s = Inr (Some m)"
proof (cases "is_kingside_castling b m")
  case True
  with assms have c: "convert b m = Inr ''O-O''" by (simp add: convert_def)
  from True assms(2) have "parse (DescriptiveNotationParser b) ''O-O'' = Inr (Some m)"
    by (cases "turn b")
       (simp_all add: parse_def normalize_castling_tokens parse_castling_kingside_def
          DescriptiveNotationParser_def)
  with c show ?thesis by blast
next
  case False
  with assms have c: "convert b m = Inr ''O-O-O''" by (simp add: convert_def)
  from False assms(3) have "parse (DescriptiveNotationParser b) ''O-O-O'' = Inr (Some m)"
    by (cases "turn b")
       (simp_all add: parse_def normalize_castling_tokens parse_castling_queenside_def
          DescriptiveNotationParser_def)
  with c show ?thesis by blast
qed


text \<open>
  C7, as stated, fails for pawn captures. After 1. e4 d5 the capture e4xd5 is the only
  pawn move to d5; the formatter writes it \<open>KPxQ5\<close> (origin file, \<open>Px\<close>, destination),
  and the parser reads that text as a pawn move to K5 and returns the advance e4-e5.
\<close>

theorem pawn_capture_round_trip_counterexample:
  "convert board_after_e4_d5 (mv 28 35) = Inr ''KPxQ5''
   \<and> parse (DescriptiveNotationParser board_after_e4_d5) ''KPxQ5'' = Inr (Some (mv 28 36))
   \<and> mv 28 36 \<noteq> mv 28 35
   \<and> candidates_to board_after_e4_d5 1 35 = [mv 28 35]"
  by code_simp

text \<open>
  C7, amended. For every square of the board and either side, the file token and the rank
  digit the formatter writes for that square are resolved back to that square by the
  parser. So formatting a move and parsing the text again gives the move back
  \<^item> for a move without promotion that is not a pawn capture and is the only legal move
    of its piece kind to its destination,
  \<^item> for a pawn promotion by advance that is the only legal move to its destination
    with its promotion kind,
  \<^item> for a castling move, when the board marks as castling the fixed king move of the
    side to move and grants the matching right.
\<close>

theorem formatter_parser_round_trip:
  "(0 \<le> sq \<and> sq < 64 \<longrightarrow>
      (\<exists>tok fl d. FILE_NAMES (sq mod 8) = Some tok \<and> FILE_MAP tok = Some fl
         \<and> str_int (rank_num_of (is_white_turn p) sq) = [d]
         \<and> python_int [d] = Inr (rank_num_of (is_white_turn p) sq)
         \<and> descriptive_rank_to_standard p (rank_num_of (is_white_turn p) sq) = Some (sq div 8)
         \<and> file_rank_to_square fl (sq div 8) = sq))
   \<and> (0 \<le> to_square m \<and> to_square m < 64 \<and> \<not> is_castling b m
        \<and> piece_at b (from_square m) = Some mover
        \<and> piece_type mover \<in> set [1, 2, 3, 4, 5, 6]
        \<and> \<not> (piece_type mover = 1 \<and> piece_at b (to_square m) \<noteq> None)
        \<and> promotion m = None
        \<and> candidates_to b (piece_type mover) (to_square m) = [m] \<longrightarrow>
      (\<exists>s. convert b m = Inr s \<and> parse (DescriptiveNotationParser b) s = Inr (Some m)))
   \<and> (0 \<le> to_square m \<and> to_square m < 64 \<and> \<not> is_castling b m
        \<and> piece_at b (from_square m) = Some mover
        \<and> piece_type mover = 1 \<and> color mover = turn b
        \<and> piece_at b (to_square m) = None
        \<and> promotion m = Some k \<and> k \<in> set [2, 3, 4, 5]
        \<and> filter (\<lambda>m'. to_square m' = to_square m \<and> promotion m' = Some k) (legal_moves b)
            = [m] \<longrightarrow>
      (\<exists>s. convert b m = Inr s \<and> parse (DescriptiveNotationParser b) s = Inr (Some m)))
   \<and> (is_castling b m
        \<and> (is_kingside_castling b m \<longrightarrow>
              has_kingside_castling_rights b (turn b) \<and> m = (if turn b then e1g1 else e8g8))
        \<and> (\<not> is_kingside_castling b m \<longrightarrow>
              has_queenside_castling_rights b (turn b) \<and> m = (if turn b then e1c1 else e8c8))
        \<longrightarrow>
      (\<exists>s. convert b m = Inr s \<and> parse (DescriptiveNotationParser b) s = Inr (Some m)))"
proof (intro conjI impI)
  assume sq: "0 \<le> sq \<and> sq < 64"
  from file_of_square[of sq] obtain tok fl where
    tok: "FILE_NAMES (sq mod 8) = Some tok" "FILE_MAP tok = Some fl"
      "ord fl - ord (CHR ''a'') = sq mod 8"
    by blast
  from sq rank_digit_cases[of "rank_num_of (is_white_turn p) sq"] rank_num_range[of sq]
  obtain d where d: "str_int (rank_num_of (is_white_turn p) sq) = [d]"
      "d \<in> set ''12345678''" "ord d - 48 = rank_num_of (is_white_turn p) sq"
    by blast
  have "python_int [d] = Inr (rank_num_of (is_white_turn p) sq)"
    using python_int_digit[OF d(2)] d(3) by simp
  with tok d(1) rank_of_rank_num[of p sq] square_of_file_rank[OF tok(3)]
  show "\<exists>tok fl d. FILE_NAMES (sq mod 8) = Some tok \<and> FILE_MAP tok = Some fl
         \<and> str_int (rank_num_of (is_white_turn p) sq) = [d]
         \<and> python_int [d] = Inr (rank_num_of (is_white_turn p) sq)
         \<and> descriptive_rank_to_standard p (rank_num_of (is_white_turn p) sq) = Some (sq div 8)
         \<and> file_rank_to_square fl (sq div 8) = sq"
    by blast
next
  assume "0 \<le> to_square m \<and> to_square m < 64 \<and> \<not> is_castling b m
        \<and> piece_at b (from_square m) = Some mover
        \<and> piece_type mover \<in> set [1, 2, 3, 4, 5, 6]
        \<and> \<not> (piece_type mover = 1 \<and> piece_at b (to_square m) \<noteq> None)
        \<and> promotion m = None
        \<and> candidates_to b (piece_type mover) (to_square m) = [m]"
  then show "\<exists>s. convert b m = Inr s \<and> parse (DescriptiveNotationParser b) s = Inr (Some m)"
    by (intro round_trip_plain[of m b mover]) blast+
next
  assume "0 \<le> to_square m \<and> to_square m < 64 \<and> \<not> is_castling b m
        \<and> piece_at b (from_square m) = Some mover
        \<and> piece_type mover = 1 \<and> color mover = turn b
        \<and> piece_at b (to_square m) = None
        \<and> promotion m = Some k \<and> k \<in> set [2, 3, 4, 5]
        \<and> filter (\<lambda>m'. to_square m' = to_square m \<and> promotion m' = Some k) (legal_moves b)
            = [m]"
  then show "\<exists>s. convert b m = Inr s \<and> parse (DescriptiveNotationParser b) s = Inr (Some m)"
    by (intro round_trip_promotion[of m b mover k]) blast+
next
  assume "is_castling b m
        \<and> (is_kingside_castling b m \<longrightarrow>
              has_kingside_castling_rights b (turn b) \<and> m = (if turn b then e1g1 else e8g8))
        \<and> (\<not> is_kingside_castling b m \<longrightarrow>
              has_queenside_castling_rights b (turn b) \<and> m = (if turn b then e1c1 else e8c8))"
  then show "\<exists>s. convert b m = Inr s \<and> parse (DescriptiveNotationParser b) s = Inr (Some m)"
    by (intro round_trip_castling) blast+
qed

theorem formatter_parser_round_trip_witness:
  "convert initial_board (mv 6 21) = Inr ''N-KB3''
   \<and> parse (DescriptiveNotationParser initial_board) ''N-KB3'' = Inr (Some (mv 6 21))
   \<and> candidates_to initial_board 2 21 = [mv 6 21]"
proof -
  let ?m = "mv 6 21" and ?b = initial_board and ?n = "\<lparr>piece_type = 2, color = True\<rparr>"
  have c: "convert ?b ?m = Inr ''N-KB3''" by code_simp
  have h: "0 \<le> to_square ?m \<and> to_square ?m < 64 \<and> \<not> is_castling ?b ?m
        \<and> piece_at ?b (from_square ?m) = Some ?n
        \<and> piece_type ?n \<in> set [1, 2, 3, 4, 5, 6]
        \<and> \<not> (piece_type ?n = 1 \<and> piece_at ?b (to_square ?m) \<noteq> None)
        \<and> promotion ?m = None
        \<and> candidates_to ?b (piece_type ?n) (to_square ?m) = [?m]"
    by code_simp
  have cands: "candidates_to ?b 2 21 = [?m]" by code_simp
  note rt = formatter_parser_round_trip[where b = ?b and m = ?m and mover = ?n,
      THEN conjunct2, THEN conjunct1]
  from mp[OF rt h] obtain s where s: "convert ?b ?m = Inr s"
      "parse (DescriptiveNotationParser ?b) s = Inr (Some ?m)"
    by blast
  from s(1) c have "s = ''N-KB3''" by simp
  with s(2) c cands show ?thesis by simp
qed

subsection \<open>Rank perspective\<close>

text \<open>
  C1. The rank digit \<open>r\<close> resolves to absolute rank \<open>r - 1\<close> when the parser's captured
  side to move is White and to \<open>8 - r\<close> when it is Black. The side is the one read when
  the parser was built (\<open>is_white_turn\<close>), so a parser built on board \<open>b\<close> uses
  \<open>turn b\<close>. The same digit therefore gives mirrored ranks for the two colours: they
  add up to 7. Inside a parse this is the rank of the target square: a pawn move
  \<open>P-<file><digit>\<close> looks for pawn moves to the square of that file on rank
  \<open>digit - 1\<close> for White and \<open>8 - digit\<close> for Black.
\<close>

theorem rank_perspective:
  "descriptive_rank_to_standard p r = Some (if is_white_turn p then r - 1 else 8 - r)
   \<and> descriptive_rank_to_standard (DescriptiveNotationParser b) r
       = Some (if turn b then r - 1 else 8 - r)
   \<and> descriptive_rank_to_standard \<lparr>board = b, is_white_turn = True\<rparr> r = Some (r - 1)
   \<and> descriptive_rank_to_standard \<lparr>board = b, is_white_turn = False\<rparr> r = Some (7 - (r - 1))
   \<and> (FILE_MAP tok = Some fl \<and> d \<in> set ''12345678'' \<longrightarrow>
        parse p (''P-'' @ tok @ [d])
        = Inr (choose_candidate (board p) False
                 (candidates_to (board p) 1
                    (file_rank_to_square fl
                       (if is_white_turn p then (ord d - 48) - 1 else 8 - (ord d - 48))))))"
proof (intro conjI impI)
  assume h: "FILE_MAP tok = Some fl \<and> d \<in> set ''12345678''"
  then have tok: "tok \<in> set file_patterns"
    using file_token_cases[of tok fl] by (auto simp: file_patterns_def)
  from h have d: "d \<in> set ''12345678''" and f: "FILE_MAP tok = Some fl" by simp_all
  note dt = destination_tokens[OF tok d]
  have "list_all plain_char (''P-'' @ tok @ [d])" using dt(2) plain_punctuation by simp
  then have n: "normalize (''P-'' @ tok @ [d]) = ''P-'' @ tok @ [d]" by (rule normalize_plain)
  show "parse p (''P-'' @ tok @ [d])
        = Inr (choose_candidate (board p) False
                 (candidates_to (board p) 1
                    (file_rank_to_square fl
                       (if is_white_turn p then (ord d - 48) - 1 else 8 - (ord d - 48)))))"
    unfolding dispatch_pawn[OF dt(3) n] pawn_move_body[OF dt(3) dt(4) dt(1)]
    by (simp add: resolve_destination_def descriptive_rank_to_standard_def
          descriptive_file_to_standard_def f)
qed (simp_all add: descriptive_rank_to_standard_def DescriptiveNotationParser_def)

theorem rank_perspective_witness:
  "parse (DescriptiveNotationParser initial_board) ''P-K4''
     = Inr (choose_candidate initial_board False (candidates_to initial_board 1 28))
   \<and> parse (DescriptiveNotationParser board_after_e4) ''P-K4''
     = Inr (choose_candidate board_after_e4 False (candidates_to board_after_e4 1 36))
   \<and> candidates_to initial_board 1 28 = [mv 12 28]
   \<and> candidates_to board_after_e4 1 36 = [mv 52 36]"
proof -
  have h: "FILE_MAP ''K'' = Some (CHR ''e'') \<and> CHR ''4'' \<in> set ''12345678''"
    by (simp add: FILE_MAP_def)
  note w = rank_perspective[where tok = "''K''" and fl = "CHR ''e''" and d = "CHR ''4''"
      and p = "DescriptiveNotationParser initial_board",
      THEN conjunct2, THEN conjunct2, THEN conjunct2, THEN conjunct2]
  note k = rank_perspective[where tok = "''K''" and fl = "CHR ''e''" and d = "CHR ''4''"
      and p = "DescriptiveNotationParser board_after_e4",
      THEN conjunct2, THEN conjunct2, THEN conjunct2, THEN conjunct2]
  have sqw: "file_rank_to_square (CHR ''e'') (ord (CHR ''4'') - 48 - 1) = 28"
    and sqb: "file_rank_to_square (CHR ''e'') (8 - (ord (CHR ''4'') - 48)) = 36"
    by (simp_all add: file_rank_to_square_def ord_def)
  have a: "parse (DescriptiveNotationParser initial_board) ''P-K4''
     = Inr (choose_candidate initial_board False (candidates_to initial_board 1 28))"
    using mp[OF w h] sqw
    by (simp add: DescriptiveNotationParser_def initial_board_def)
  have b: "parse (DescriptiveNotationParser board_after_e4) ''P-K4''
     = Inr (choose_candidate board_after_e4 False (candidates_to board_after_e4 1 36))"
    using mp[OF k h] sqb
    by (simp add: DescriptiveNotationParser_def board_after_e4_def)
  have c: "candidates_to initial_board 1 28 = [mv 12 28]
           \<and> candidates_to board_after_e4 1 36 = [mv 52 36]" by code_simp
  from a b c show ?thesis by simp
qed

subsection \<open>Totality within the integer conversion limit\<close>























subsection \<open>The integer conversion limit\<close>






subsection \<open>Promotion: the resolved square and kind\<close>

text \<open>
  C6. For a full file token, a run of rank digits (at most 4300 of them, the most the
  integer conversion accepts) and a promotion letter Q, R, B or N, the input
  \<open>P-<file><rank>(<letter>)\<close> resolves the file and the decimal value of the digits to
  one square and returns the first legal move that lands there and promotes to the kind
  of the letter (queen 5, rook 4, bishop 3, knight 2); it fails exactly when no legal
  move does both.
\<close>

theorem promotion_resolution:
  assumes "FILE_MAP f = Some file" and "ds \<noteq> []" and "list_all is_digit ds"
    and "length ds \<le> 4300" and "l \<in> set ''QRBN''"
  shows "\<exists>r k sq.
        r = foldl (\<lambda>a c. 10 * a + (ord c - 48)) 0 ds
      \<and> k = (if l = CHR ''Q'' then 5 else if l = CHR ''R'' then 4
              else if l = CHR ''B'' then 3 else 2)
      \<and> sq = (if is_white_turn p then r - 1 else 8 - r) * 8 + (ord file - 97)
      \<and> parse p (''P-'' @ f @ ds @ ''('' @ [l] @ '')'')
          = Inr (find (\<lambda>m. to_square m = sq \<and> promotion m = Some k) (legal_moves (board p)))
      \<and> (\<forall>m. parse p (''P-'' @ f @ ds @ ''('' @ [l] @ '')'') = Inr (Some m) \<longrightarrow>
            m \<in> set (legal_moves (board p)) \<and> to_square m = sq \<and> promotion m = Some k)
      \<and> ((parse p (''P-'' @ f @ ds @ ''('' @ [l] @ '')'') = Inr None)
           = (\<not> (\<exists>m \<in> set (legal_moves (board p)). to_square m = sq \<and> promotion m = Some k)))"
proof -
  define r where "r = foldl (\<lambda>a c. 10 * a + (ord c - 48)) 0 ds"
  define k :: nat where "k = (if l = CHR ''Q'' then 5 else if l = CHR ''R'' then 4
              else if l = CHR ''B'' then 3 else 2)"
  define sq where "sq = (if is_white_turn p then r - 1 else 8 - r) * 8 + (ord file - 97)"
  have pi: "python_int ds = Inr r"
    using assms(2,3,4) by (simp add: python_int_def int_max_str_digits_def r_def)
  have k: "promo_map [l] = Some k" "k \<noteq> 0"
    using assms(5) by (auto simp: promo_map_def k_def)
  have sq': "sq = file_rank_to_square file (if is_white_turn p then r - 1 else 8 - r)"
    by (simp add: sq_def file_rank_to_square_def ord_def)
  let ?P = "\<lambda>m. to_square m = sq \<and> promotion m = Some k"
  have eq: "parse p (''P-'' @ f @ ds @ ''('' @ [l] @ '')'')
            = Inr (find ?P (legal_moves (board p)))"
    unfolding sq' by (rule promotion_dispatch[OF assms(1,2,3,5) pi k])
  have sound: "m \<in> set (legal_moves (board p)) \<and> ?P m"
    if "find ?P (legal_moves (board p)) = Some m" for m
    using that unfolding find_Some_iff by auto
  have none: "(find ?P (legal_moves (board p)) = None)
              = (\<not> (\<exists>m \<in> set (legal_moves (board p)). ?P m))"
    by (auto simp: find_None_iff)
  have all: "r = foldl (\<lambda>a c. 10 * a + (ord c - 48)) 0 ds
      \<and> k = (if l = CHR ''Q'' then 5 else if l = CHR ''R'' then 4
              else if l = CHR ''B'' then 3 else 2)
      \<and> sq = (if is_white_turn p then r - 1 else 8 - r) * 8 + (ord file - 97)
      \<and> parse p (''P-'' @ f @ ds @ ''('' @ [l] @ '')'')
          = Inr (find ?P (legal_moves (board p)))
      \<and> (\<forall>m. parse p (''P-'' @ f @ ds @ ''('' @ [l] @ '')'') = Inr (Some m) \<longrightarrow>
            m \<in> set (legal_moves (board p)) \<and> to_square m = sq \<and> promotion m = Some k)
      \<and> ((parse p (''P-'' @ f @ ds @ ''('' @ [l] @ '')'') = Inr None)
           = (\<not> (\<exists>m \<in> set (legal_moves (board p)). to_square m = sq \<and> promotion m = Some k)))"
  proof (intro conjI allI impI)
    show "r = foldl (\<lambda>a c. 10 * a + (ord c - 48)) 0 ds" by (rule r_def)
    show "k = (if l = CHR ''Q'' then 5 else if l = CHR ''R'' then 4
              else if l = CHR ''B'' then 3 else 2)" by (rule k_def)
    show "sq = (if is_white_turn p then r - 1 else 8 - r) * 8 + (ord file - 97)"
      by (rule sq_def)
    show "parse p (''P-'' @ f @ ds @ ''('' @ [l] @ '')'')
          = Inr (find ?P (legal_moves (board p)))" by (rule eq)
    fix m assume "parse p (''P-'' @ f @ ds @ ''('' @ [l] @ '')'') = Inr (Some m)"
    then have fm: "find ?P (legal_moves (board p)) = Some m" unfolding eq by simp
    from sound[OF fm] show "m \<in> set (legal_moves (board p))" "to_square m = sq"
      "promotion m = Some k" by simp_all
  next
    show "(parse p (''P-'' @ f @ ds @ ''('' @ [l] @ '')'') = Inr None)
           = (\<not> (\<exists>m \<in> set (legal_moves (board p)). to_square m = sq \<and> promotion m = Some k))"
      unfolding eq using none by simp
  qed
  then show ?thesis by blast
qed

theorem promotion_resolution_witness:
  "parse (DescriptiveNotationParser promotion_board) ''P-K8(Q)''
     = Inr (Some \<lparr>from_square = 52, to_square = 60, promotion = Some 5\<rparr>)
   \<and> parse (DescriptiveNotationParser promotion_board) ''P-K08(N)''
     = Inr (Some \<lparr>from_square = 52, to_square = 60, promotion = Some 2\<rparr>)
   \<and> parse (DescriptiveNotationParser promotion_board) ''P-K7(Q)'' = Inr None
   \<and> parse (DescriptiveNotationParser promotion_board) ''P-K18(Q)'' = Inr None
   \<and> parse (DescriptiveNotationParser promotion_board) ''P-Q8(Q)'' = Inr None"
proof -
  let ?p = "DescriptiveNotationParser promotion_board"
  have pb: "legal_moves (board ?p) = legal_moves promotion_board" "is_white_turn ?p"
    by (simp_all add: DescriptiveNotationParser_def promotion_board_def)
  have fk: "FILE_MAP ''K'' = Some (CHR ''e'')" and fq: "FILE_MAP ''Q'' = Some (CHR ''d'')"
    by (simp_all add: FILE_MAP_def)
  have lq: "CHR ''Q'' \<in> set ''QRBN''" and ln: "CHR ''N'' \<in> set ''QRBN''" by simp_all
  have dg: "list_all is_digit ''8''" "list_all is_digit ''08''" "list_all is_digit ''7''"
    "list_all is_digit ''18''"
    by code_simp+
  have ev: "find (\<lambda>m. to_square m = sq \<and> promotion m = Some k) (legal_moves promotion_board)
            = (if sq = 60 \<and> k \<in> {2, 3, 4, 5}
               then Some \<lparr>from_square = 52, to_square = 60, promotion = Some k\<rparr> else None)"
    for sq k
    by (auto simp: promotion_board_def mv_def)
  have a: "parse ?p ''P-K8(Q)''
     = Inr (Some \<lparr>from_square = 52, to_square = 60, promotion = Some 5\<rparr>)"
    using promotion_resolution[OF fk _ dg(1) _ lq, of ?p]
    by (simp add: pb ev ord_def)
  have b: "parse ?p ''P-K08(N)''
     = Inr (Some \<lparr>from_square = 52, to_square = 60, promotion = Some 2\<rparr>)"
    using promotion_resolution[OF fk _ dg(2) _ ln, of ?p]
    by (simp add: pb ev ord_def)
  have c: "parse ?p ''P-K7(Q)'' = Inr None"
    using promotion_resolution[OF fk _ dg(3) _ lq, of ?p]
    by (simp add: pb ev ord_def)
  have d: "parse ?p ''P-K18(Q)'' = Inr None"
    using promotion_resolution[OF fk _ dg(4) _ lq, of ?p]
    by (simp add: pb ev ord_def)
  have e: "parse ?p ''P-Q8(Q)'' = Inr None"
    using promotion_resolution[OF fq _ dg(1) _ lq, of ?p]
    by (simp add: pb ev ord_def)
  from a b c d e show ?thesis by (intro conjI)
qed

subsection \<open>What a parse observes\<close>






subsection \<open>Tie-breaks among several candidates\<close>

















end
